theory Spec2Isabelle
  imports Main
begin

section \<open>Python values used by Vigenere.py\<close>

text \<open>
  A Python \<open>str\<close> is a sequence of Unicode code points, so a string is a list of
  natural numbers (\<open>ord\<close> of each character) and \<open>len\<close> is \<open>length\<close>.
  ASCII literals of the source are written as Isabelle strings and converted with \<open>cps\<close>;
  other characters of the source's literals are written as code points.
\<close>

type_synonym ustring = "nat list"

definition cps :: "string \<Rightarrow> ustring" where
  "cps s = map of_char s"

text \<open>The exceptions the code can raise, with their message.\<close>

datatype py_error = ValueError ustring | TypeError ustring

subsection \<open>Built-in operations\<close>

text \<open>
  \<open>str.upper()\<close> maps every character on its own to its uppercase form, which may be
  several characters long. On ASCII it maps a-z to A-Z and leaves the rest. Beyond ASCII the
  mapping is a table of the Unicode database of the interpreter, not of this repository:
  it is the parameter \<open>ucd\<close> of every function that uppercases.
\<close>

definition upper_cp :: "(nat \<Rightarrow> ustring) \<Rightarrow> nat \<Rightarrow> ustring" where
  "upper_cp ucd c =
     (if 97 \<le> c \<and> c \<le> 122 then [c - 32] else if c < 128 then [c] else ucd c)"

definition str_upper :: "(nat \<Rightarrow> ustring) \<Rightarrow> ustring \<Rightarrow> ustring" where
  "str_upper ucd s = concat (map (upper_cp ucd) s)"

text \<open>
  The entries of CPython's uppercase table whose result contains a letter A-Z
  (sharp s, dotless i, long s, five letters with a combining mark, the Latin ligatures).
  Every other code point is left as it is here; Python maps many of them to another
  code point outside A-Z (U+00E9 to U+00C9). This table instantiates \<open>ucd\<close> in closed
  statements.
\<close>

definition ucd_excerpt :: "nat \<Rightarrow> ustring" where
  "ucd_excerpt c =
     (if c = 0xDF then [0x53, 0x53]
      else if c = 0x131 then [0x49]
      else if c = 0x149 then [0x2BC, 0x4E]
      else if c = 0x17F then [0x53]
      else if c = 0x1F0 then [0x4A, 0x30C]
      else if c = 0x1E96 then [0x48, 0x331]
      else if c = 0x1E97 then [0x54, 0x308]
      else if c = 0x1E98 then [0x57, 0x30A]
      else if c = 0x1E99 then [0x59, 0x30A]
      else if c = 0x1E9A then [0x41, 0x2BE]
      else if c = 0xFB00 then [0x46, 0x46]
      else if c = 0xFB01 then [0x46, 0x49]
      else if c = 0xFB02 then [0x46, 0x4C]
      else if c = 0xFB03 then [0x46, 0x46, 0x49]
      else if c = 0xFB04 then [0x46, 0x46, 0x4C]
      else if c = 0xFB05 then [0x53, 0x54]
      else if c = 0xFB06 then [0x53, 0x54]
      else [c])"

text \<open>\<open>string.ascii_uppercase\<close>; \<open>c in string.ascii_uppercase\<close> for a character \<open>c\<close>.\<close>

definition ascii_uppercase :: ustring where
  "ascii_uppercase = cps ''ABCDEFGHIJKLMNOPQRSTUVWXYZ''"

definition in_ascii_uppercase :: "nat \<Rightarrow> bool" where
  "in_ascii_uppercase c = (c \<in> set ascii_uppercase)"

text \<open>The characters \<open>str.strip()\<close> removes from both ends: those with \<open>str.isspace()\<close>.\<close>

definition py_isspace :: "nat \<Rightarrow> bool" where
  "py_isspace c =
     ((0x9 \<le> c \<and> c \<le> 0xD) \<or> (0x1C \<le> c \<and> c \<le> 0x20) \<or> c = 0x85 \<or> c = 0xA0
      \<or> c = 0x1680 \<or> (0x2000 \<le> c \<and> c \<le> 0x200A) \<or> c = 0x2028 \<or> c = 0x2029
      \<or> c = 0x202F \<or> c = 0x205F \<or> c = 0x3000)"

definition str_strip :: "ustring \<Rightarrow> ustring" where
  "str_strip s = rev (dropWhile py_isspace (rev (dropWhile py_isspace s)))"

text \<open>\<open>sep.join(parts)\<close>.\<close>

fun str_join :: "ustring \<Rightarrow> ustring list \<Rightarrow> ustring" where
  "str_join sep [] = []"
| "str_join sep [x] = x"
| "str_join sep (x # y # ys) = x @ sep @ str_join sep (y # ys)"

text \<open>Digits: \<open>str(n)\<close> of a natural number, and hexadecimal digits in either case.\<close>

fun str_of_nat :: "nat \<Rightarrow> ustring" where
  "str_of_nat n = (if n < 10 then [48 + n] else str_of_nat (n div 10) @ [48 + n mod 10])"

definition hex_digit :: "bool \<Rightarrow> nat \<Rightarrow> nat" where
  "hex_digit upper d = (if d < 10 then 48 + d else (if upper then 55 else 87) + d)"

fun hex_digits :: "bool \<Rightarrow> nat \<Rightarrow> ustring" where
  "hex_digits upper n =
     (if n < 16 then [hex_digit upper n]
      else hex_digits upper (n div 16) @ [hex_digit upper (n mod 16)])"

definition zero_pad :: "nat \<Rightarrow> ustring \<Rightarrow> ustring" where
  "zero_pad w s = replicate (w - length s) 48 @ s"

text \<open>The format specification \<open>04X\<close> of the f-string in \<open>validar_datos\<close>.\<close>

definition format_04X :: "nat \<Rightarrow> ustring" where
  "format_04X n = zero_pad 4 (hex_digits True n)"

text \<open>
  \<open>repr(c)\<close> of a one-character string whose character is not printable and lies between
  U+0100 and U+FFFF: a quote, the escape \<open>\uxxxx\<close> in lower case, a quote. The source
  calls \<open>repr\<close> only on members of \<open>CARACTERES_INVISIBLES\<close>, all format characters
  (category Cf) in that range.
\<close>

definition py_repr_char :: "nat \<Rightarrow> ustring" where
  "py_repr_char c = [39, 92, 117] @ zero_pad 4 (hex_digits False c) @ [39]"

text \<open>\<open>ord(s)\<close> raises TypeError unless \<open>s\<close> has exactly one character.\<close>

definition py_ord :: "ustring \<Rightarrow> py_error + nat" where
  "py_ord s =
     (if length s = 1 then Inr (hd s)
      else Inl (TypeError (cps ''ord() expected a character, but string of length ''
                           @ str_of_nat (length s) @ cps '' found'')))"

text \<open>\<open>chr(i)\<close> raises ValueError outside \<open>range(0x110000)\<close>.\<close>

definition py_chr :: "int \<Rightarrow> py_error + nat" where
  "py_chr i =
     (if 0 \<le> i \<and> i < 0x110000 then Inr (nat i)
      else Inl (ValueError (cps ''chr() arg not in range(0x110000)'')))"

section \<open>Configuration\<close>

definition MINIMO_CLAVE :: nat where
  "MINIMO_CLAVE = 3"

definition CARACTERES_INVISIBLES :: "nat list" where
  "CARACTERES_INVISIBLES = [0x200B, 0x200C, 0x200D, 0x2060, 0xFEFF]"

section \<open>Auxiliary functions\<close>

definition limpiar_texto :: "(nat \<Rightarrow> ustring) \<Rightarrow> ustring \<Rightarrow> ustring" where
  "limpiar_texto ucd texto =
     (let texto = str_upper ucd texto in filter in_ascii_uppercase texto)"

text \<open>The loop of \<open>detectar_invisibles\<close>, with the list \<open>encontrados\<close> it appends to.\<close>

fun detectar_loop :: "ustring \<Rightarrow> ustring list \<Rightarrow> ustring list" where
  "detectar_loop [] encontrados = encontrados"
| "detectar_loop (c # cadena) encontrados =
     (if c \<in> set CARACTERES_INVISIBLES
      then detectar_loop cadena (encontrados @ [py_repr_char c])
      else detectar_loop cadena encontrados)"

definition detectar_invisibles :: "ustring \<Rightarrow> ustring list" where
  "detectar_invisibles cadena = detectar_loop cadena []"

definition normalizar_clave :: "(nat \<Rightarrow> ustring) \<Rightarrow> ustring \<Rightarrow> ustring" where
  "normalizar_clave ucd clave = filter in_ascii_uppercase (str_upper ucd clave)"

subsection \<open>Messages of validar_datos\<close>

definition msg_clave_vacia :: ustring where
  "msg_clave_vacia = cps ''La clave no puede estar vac'' @ [0xED] @ cps ''a.''"

definition msg_invisibles :: "ustring \<Rightarrow> ustring" where
  "msg_invisibles codigos =
     [0x26A0, 0xFE0F] @ cps '' La clave contiene caracteres invisibles o ilegales (''
     @ codigos @ cps ''). Rev'' @ [0xED] @ cps ''sala y vuelve a introducirla.''"

definition msg_sin_letras :: ustring where
  "msg_sin_letras = cps ''La clave debe contener al menos una letra A-Z.''"

definition msg_clave_corta :: ustring where
  "msg_clave_corta =
     cps ''La clave debe tener al menos '' @ str_of_nat MINIMO_CLAVE @ cps '' letras.''"

definition msg_no_validos :: "ustring \<Rightarrow> ustring \<Rightarrow> ustring" where
  "msg_no_validos clave clave_normalizada =
     [0x26A0, 0xFE0F] @ cps '' La clave contiene caracteres no v'' @ [0xE1]
     @ cps ''lidos (solo se permiten letras A-Z).'' @ [10]
     @ cps ''Clave introducida: '' @ clave @ [10]
     @ cps ''Parte v'' @ [0xE1] @ cps ''lida de la clave ser'' @ [0xED] @ cps ''a: ''
     @ clave_normalizada"

definition msg_texto_vacio :: ustring where
  "msg_texto_vacio = [0x274C] @ cps '' El texto no puede estar vac'' @ [0xED] @ cps ''o.''"

definition msg_texto_sin_letras :: ustring where
  "msg_texto_sin_letras = cps ''El texto debe contener al menos una letra A-Z.''"

subsection \<open>validar_datos\<close>

text \<open>
  The generator \<open>f"U+{ord(c):04X}" for c in invisibles\<close>, consumed by \<open>join\<close> from left
  to right: the first \<open>ord\<close> that raises ends it.
\<close>

fun codigos_gen :: "ustring list \<Rightarrow> py_error + ustring list" where
  "codigos_gen [] = Inr []"
| "codigos_gen (c # invisibles) =
     (case py_ord c of
        Inl e \<Rightarrow> Inl e
      | Inr n \<Rightarrow>
          (case codigos_gen invisibles of
             Inl e \<Rightarrow> Inl e
           | Inr rest \<Rightarrow> Inr ((cps ''U+'' @ format_04X n) # rest)))"

definition validar_datos ::
  "(nat \<Rightarrow> ustring) \<Rightarrow> ustring \<Rightarrow> ustring \<Rightarrow> py_error + (bool \<times> ustring)" where
  "validar_datos ucd texto clave =
     (if clave = [] \<or> str_strip clave = [] then Inr (False, msg_clave_vacia)
      else
        let invisibles = detectar_invisibles clave in
        if invisibles \<noteq> [] then
          (case codigos_gen invisibles of
             Inl e \<Rightarrow> Inl e
           | Inr cs \<Rightarrow> Inr (False, msg_invisibles (str_join (cps '', '') cs)))
        else
          let clave_normalizada = normalizar_clave ucd clave in
          if clave_normalizada = [] then Inr (False, msg_sin_letras)
          else if length clave_normalizada < MINIMO_CLAVE then Inr (False, msg_clave_corta)
          else if clave_normalizada \<noteq> str_upper ucd clave
            then Inr (False, msg_no_validos clave clave_normalizada)
          else if texto = [] \<or> str_strip texto = [] then Inr (False, msg_texto_vacio)
          else
            let texto_limpio = limpiar_texto ucd texto in
            if texto_limpio = [] then Inr (False, msg_texto_sin_letras)
            else Inr (True, []))"

section \<open>The Vigenere algorithm\<close>

definition ajustar_clave :: "(nat \<Rightarrow> ustring) \<Rightarrow> ustring \<Rightarrow> ustring \<Rightarrow> py_error + ustring" where
  "ajustar_clave ucd texto clave =
     (let clave = normalizar_clave ucd clave in
      if clave = [] then Inl (ValueError msg_clave_vacia)
      else
        let repeticiones = (length texto div length clave) + 1 in
        Inr (take (length texto) (concat (replicate repeticiones clave))))"

text \<open>The loop of \<open>cifrar_vigenere\<close> over \<open>zip(texto_limpio, clave_ajustada)\<close>.\<close>

fun cifrar_loop :: "(nat \<times> nat) list \<Rightarrow> ustring \<Rightarrow> py_error + ustring" where
  "cifrar_loop [] resultado = Inr resultado"
| "cifrar_loop ((t, k) # rest) resultado =
     (let nt = int t - 65;
          nk = int k - 65;
          c = (nt + nk) mod 26
      in (case py_chr (c + 65) of
            Inl e \<Rightarrow> Inl e
          | Inr ch \<Rightarrow> cifrar_loop rest (resultado @ [ch])))"

definition cifrar_vigenere ::
  "(nat \<Rightarrow> ustring) \<Rightarrow> ustring \<Rightarrow> ustring \<Rightarrow> py_error + ustring" where
  "cifrar_vigenere ucd texto clave =
     (case validar_datos ucd texto clave of
        Inl e \<Rightarrow> Inl e
      | Inr (valido, mensaje) \<Rightarrow>
          if \<not> valido then Inl (ValueError mensaje)
          else
            let texto_limpio = limpiar_texto ucd texto in
            (case ajustar_clave ucd texto_limpio clave of
               Inl e \<Rightarrow> Inl e
             | Inr clave_ajustada \<Rightarrow> cifrar_loop (zip texto_limpio clave_ajustada) []))"

text \<open>The loop of \<open>descifrar_vigenere\<close>.\<close>

fun descifrar_loop :: "(nat \<times> nat) list \<Rightarrow> ustring \<Rightarrow> py_error + ustring" where
  "descifrar_loop [] resultado = Inr resultado"
| "descifrar_loop ((c, k) # rest) resultado =
     (let nc = int c - 65;
          nk = int k - 65;
          p = (nc - nk) mod 26
      in (case py_chr (p + 65) of
            Inl e \<Rightarrow> Inl e
          | Inr ch \<Rightarrow> descifrar_loop rest (resultado @ [ch])))"

definition aviso_clave_incorrecta :: ustring where
  "aviso_clave_incorrecta =
     cps ''Posible clave incorrecta: el resultado no contiene letras legibles.''"

text \<open>
  \<open>descifrar_vigenere\<close> returns the decrypted text; the second component is the list of
  warnings it has logged with \<open>logging.warning\<close>.
\<close>

definition descifrar_vigenere ::
  "(nat \<Rightarrow> ustring) \<Rightarrow> ustring \<Rightarrow> ustring \<Rightarrow> py_error + (ustring \<times> ustring list)" where
  "descifrar_vigenere ucd texto_cifrado clave =
     (case validar_datos ucd texto_cifrado clave of
        Inl e \<Rightarrow> Inl e
      | Inr (valido, mensaje) \<Rightarrow>
          if \<not> valido then Inl (ValueError mensaje)
          else
            let texto_limpio = limpiar_texto ucd texto_cifrado in
            (case ajustar_clave ucd texto_limpio clave of
               Inl e \<Rightarrow> Inl e
             | Inr clave_ajustada \<Rightarrow>
                 (case descifrar_loop (zip texto_limpio clave_ajustada) [] of
                    Inl e \<Rightarrow> Inl e
                  | Inr texto_descifrado \<Rightarrow>
                      if \<not> list_ex in_ascii_uppercase texto_descifrado
                      then Inr (texto_descifrado, [aviso_clave_incorrecta])
                      else Inr (texto_descifrado, []))))"

section \<open>Notions used in the statements\<close>

text \<open>The message of the TypeError that \<open>ord\<close> raises on a string of eight characters.\<close>

definition msg_ord8 :: ustring where
  "msg_ord8 = cps ''ord() expected a character, but string of length 8 found''"

text \<open>The conditions under which the checks on the key pass.\<close>

definition clave_ok :: "(nat \<Rightarrow> ustring) \<Rightarrow> ustring \<Rightarrow> bool" where
  "clave_ok ucd k \<longleftrightarrow>
     \<not> list_all py_isspace k \<and> (\<forall>c\<in>set k. c \<notin> set CARACTERES_INVISIBLES)
     \<and> MINIMO_CLAVE \<le> length (normalizar_clave ucd k)
     \<and> normalizar_clave ucd k = str_upper ucd k"

text \<open>
  The expression \<open>(clave * repeticiones)[:len(texto)]\<close> of \<open>ajustar_clave\<close>, for a
  text of \<open>n\<close> characters.
\<close>

definition repetir :: "ustring \<Rightarrow> nat \<Rightarrow> ustring" where
  "repetir clave n = take n (concat (replicate (n div length clave + 1) clave))"

text \<open>The body of each loop: the letter computed from a pair of the zipped lists.\<close>

definition cifrar_letra :: "nat \<times> nat \<Rightarrow> nat" where
  "cifrar_letra tk = nat ((int (fst tk) - 65 + (int (snd tk) - 65)) mod 26 + 65)"

definition descifrar_letra :: "nat \<times> nat \<Rightarrow> nat" where
  "descifrar_letra ck = nat ((int (fst ck) - 65 - (int (snd ck) - 65)) mod 26 + 65)"

section \<open>Properties of the built-in operations and of the helpers\<close>


lemma in_ascii_uppercase_iff: "in_ascii_uppercase c \<longleftrightarrow> 65 \<le> c \<and> c \<le> 90"
  unfolding in_ascii_uppercase_def ascii_uppercase_def cps_def
  apply simp
  by presburger

lemma upper_cp_AZ: "in_ascii_uppercase c \<Longrightarrow> upper_cp ucd c = [c]"
  by (simp add: in_ascii_uppercase_iff upper_cp_def)

lemma str_upper_AZ: "list_all in_ascii_uppercase s \<Longrightarrow> str_upper ucd s = s"
  by (induction s) (simp_all add: str_upper_def upper_cp_AZ)

lemma limpiar_texto_AZ: "list_all in_ascii_uppercase (limpiar_texto ucd t)"
  by (simp add: limpiar_texto_def list_all_iff)

lemma limpiar_texto_fix: "list_all in_ascii_uppercase s \<Longrightarrow> limpiar_texto ucd s = s"
  by (simp add: limpiar_texto_def str_upper_AZ list_all_iff)

lemma normalizar_clave_limpiar: "normalizar_clave ucd k = limpiar_texto ucd k"
  by (simp add: limpiar_texto_def normalizar_clave_def)

lemma str_strip_Nil_iff: "str_strip s = [] \<longleftrightarrow> list_all py_isspace s"
proof
  assume "list_all py_isspace s"
  then have "dropWhile py_isspace s = []" by (auto simp: list_all_iff dest: set_dropWhileD)
  then show "str_strip s = []" by (simp only: str_strip_def rev.simps dropWhile.simps)
next
  assume a: "str_strip s = []"
  show "list_all py_isspace s"
  proof (rule ccontr)
    assume "\<not> list_all py_isspace s"
    then have ne: "dropWhile py_isspace s \<noteq> []" by (auto simp: list_all_iff)
    then have "\<not> py_isspace (hd (dropWhile py_isspace s))" by (rule hd_dropWhile)
    moreover have "hd (dropWhile py_isspace s) \<in> set (rev (dropWhile py_isspace s))"
      using ne by simp
    ultimately have "dropWhile py_isspace (rev (dropWhile py_isspace s)) \<noteq> []"
      by (metis dropWhile_eq_Nil_conv)
    with a show False by (simp add: str_strip_def)
  qed
qed

lemma clave_vacia_iff: "(k = [] \<or> str_strip k = []) \<longleftrightarrow> list_all py_isspace k"
  by (auto simp: str_strip_Nil_iff)

lemma AZ_not_space: "in_ascii_uppercase c \<Longrightarrow> \<not> py_isspace c"
  by (simp add: in_ascii_uppercase_iff py_isspace_def)

lemma detectar_loop_eq:
  "detectar_loop s acc = acc @ map py_repr_char (filter (\<lambda>c. c \<in> set CARACTERES_INVISIBLES) s)"
  by (induction s arbitrary: acc) simp_all

lemma detectar_invisibles_eq:
  "detectar_invisibles s = map py_repr_char (filter (\<lambda>c. c \<in> set CARACTERES_INVISIBLES) s)"
  by (simp add: detectar_invisibles_def detectar_loop_eq)

lemma detectar_invisibles_Nil_iff:
  "detectar_invisibles s = [] \<longleftrightarrow> (\<forall>c\<in>set s. c \<notin> set CARACTERES_INVISIBLES)"
  by (simp add: detectar_invisibles_eq filter_empty_conv)

lemma length_py_repr_char_invisible:
  "c \<in> set CARACTERES_INVISIBLES \<Longrightarrow> length (py_repr_char c) = 8"
  by (auto simp: CARACTERES_INVISIBLES_def py_repr_char_def zero_pad_def)

lemma py_ord_length8: "length s = 8 \<Longrightarrow> py_ord s = Inl (TypeError msg_ord8)"
  by (simp add: py_ord_def msg_ord8_def cps_def)

lemma codigos_gen_length8:
  "xs \<noteq> [] \<Longrightarrow> length (hd xs) = 8 \<Longrightarrow> codigos_gen xs = Inl (TypeError msg_ord8)"
  by (cases xs) (simp_all add: py_ord_length8)

lemma hd_detectar_invisibles:
  "detectar_invisibles s \<noteq> [] \<Longrightarrow> length (hd (detectar_invisibles s)) = 8"
proof -
  assume "detectar_invisibles s \<noteq> []"
  then have ne: "filter (\<lambda>c. c \<in> set CARACTERES_INVISIBLES) s \<noteq> []"
    by (simp add: detectar_invisibles_eq)
  then have "hd (filter (\<lambda>c. c \<in> set CARACTERES_INVISIBLES) s)
              \<in> set (filter (\<lambda>c. c \<in> set CARACTERES_INVISIBLES) s)"
    by (rule hd_in_set)
  then have "hd (filter (\<lambda>c. c \<in> set CARACTERES_INVISIBLES) s) \<in> set CARACTERES_INVISIBLES"
    by simp
  then show ?thesis
    using ne by (simp add: detectar_invisibles_eq hd_map length_py_repr_char_invisible)
qed

lemma validar_datos_invisibles:
  assumes "\<not> list_all py_isspace k" and "\<exists>c\<in>set k. c \<in> set CARACTERES_INVISIBLES"
  shows "validar_datos ucd t k = Inl (TypeError msg_ord8)"
proof -
  have ne: "detectar_invisibles k \<noteq> []"
    using assms(2) by (simp add: detectar_invisibles_Nil_iff)
  have "codigos_gen (detectar_invisibles k) = Inl (TypeError msg_ord8)"
    using ne by (rule codigos_gen_length8) (rule hd_detectar_invisibles [OF ne])
  moreover have "\<not> (k = [] \<or> str_strip k = [])"
    using assms(1) by (simp add: clave_vacia_iff)
  ultimately show ?thesis
    using ne by (simp add: validar_datos_def Let_def)
qed

lemma validar_datos_True_iff:
  "validar_datos ucd t k = Inr (True, m) \<longleftrightarrow>
     m = [] \<and> clave_ok ucd k \<and> \<not> list_all py_isspace t \<and> limpiar_texto ucd t \<noteq> []"
proof (cases "\<exists>c\<in>set k. c \<in> set CARACTERES_INVISIBLES")
  case True
  show ?thesis
  proof (cases "list_all py_isspace k")
    case sp: True
    then show ?thesis by (simp add: validar_datos_def clave_vacia_iff clave_ok_def)
  next
    case False
    then have "validar_datos ucd t k = Inl (TypeError msg_ord8)"
      using True by (rule validar_datos_invisibles)
    then show ?thesis using True by (auto simp: clave_ok_def)
  qed
next
  case False
  then have "detectar_invisibles k = []" by (simp add: detectar_invisibles_Nil_iff)
  then show ?thesis
    using False
    by (auto simp: validar_datos_def Let_def clave_vacia_iff clave_ok_def MINIMO_CLAVE_def)
qed

lemma validar_datos_True_msg: "validar_datos ucd t k = Inr (True, m) \<Longrightarrow> m = []"
  by (simp add: validar_datos_True_iff)

lemma clave_ok_normalizada: "clave_ok ucd k \<Longrightarrow> normalizar_clave ucd k \<noteq> []"
  by (auto simp: clave_ok_def MINIMO_CLAVE_def)

subsection \<open>Key expansion\<close>

lemma length_concat_replicate: "length (concat (replicate n xs)) = n * length xs"
  by (induction n) simp_all

lemma nth_concat_replicate:
  "i < n * length xs \<Longrightarrow> concat (replicate n xs) ! i = xs ! (i mod length xs)"
proof (induction n arbitrary: i)
  case 0
  then show ?case by simp
next
  case (Suc n)
  show ?case
  proof (cases "i < length xs")
    case True
    then show ?thesis by (simp add: nth_append)
  next
    case False
    then have ge: "length xs \<le> i" by simp
    with Suc.prems have "i - length xs < n * length xs" by simp
    then have "concat (replicate n xs) ! (i - length xs) = xs ! ((i - length xs) mod length xs)"
      by (rule Suc.IH)
    moreover have "(i - length xs) mod length xs = i mod length xs"
      using ge by (simp add: le_mod_geq)
    ultimately show ?thesis using False by (simp add: nth_append)
  qed
qed

lemma reps_enough: "0 < l \<Longrightarrow> n < (n div l + 1) * (l::nat)"
  using dividend_less_div_times [of l n] by (simp add: algebra_simps)

lemma length_repetir: "clave \<noteq> [] \<Longrightarrow> length (repetir clave n) = n"
proof -
  assume "clave \<noteq> []"
  then have "0 < length clave" by simp
  then have "n < (n div length clave + 1) * length clave" by (rule reps_enough)
  then have "n \<le> length (concat (replicate (n div length clave + 1) clave))"
    by (simp only: length_concat_replicate)
  then show ?thesis by (simp only: repetir_def length_take min_absorb2)
qed

lemma nth_repetir:
  "clave \<noteq> [] \<Longrightarrow> i < n \<Longrightarrow> repetir clave n ! i = clave ! (i mod length clave)"
proof -
  assume ne: "clave \<noteq> []" and i: "i < n"
  from ne have "0 < length clave" by simp
  then have "n < (n div length clave + 1) * length clave" by (rule reps_enough)
  with i have "i < (n div length clave + 1) * length clave" by simp
  then have "concat (replicate (n div length clave + 1) clave) ! i = clave ! (i mod length clave)"
    by (rule nth_concat_replicate)
  with i show ?thesis by (simp only: repetir_def nth_take)
qed

lemma ajustar_clave_Inr:
  "normalizar_clave ucd k \<noteq> [] \<Longrightarrow>
     ajustar_clave ucd t k = Inr (repetir (normalizar_clave ucd k) (length t))"
  by (simp add: ajustar_clave_def Let_def repetir_def)

lemma ajustar_clave_Inl:
  "normalizar_clave ucd k = [] \<Longrightarrow> ajustar_clave ucd t k = Inl (ValueError msg_clave_vacia)"
  by (simp add: ajustar_clave_def)

subsection \<open>The encryption and decryption loop\<close>

lemma py_chr_mod26: "py_chr (x mod 26 + 65) = Inr (nat (x mod 26 + 65))"
proof -
  have "0 \<le> x mod 26" and "x mod 26 < 26" by simp_all
  then show ?thesis by (simp add: py_chr_def)
qed

lemma cifrar_loop_eq: "cifrar_loop zs acc = Inr (acc @ map cifrar_letra zs)"
proof (induction zs arbitrary: acc)
  case Nil
  then show ?case by simp
next
  case (Cons z zs)
  obtain t k where z: "z = (t, k)" by (cases z)
  show ?case
    unfolding z by (simp add: Let_def py_chr_mod26 Cons.IH cifrar_letra_def)
qed

lemma descifrar_loop_eq: "descifrar_loop zs acc = Inr (acc @ map descifrar_letra zs)"
proof (induction zs arbitrary: acc)
  case Nil
  then show ?case by simp
next
  case (Cons z zs)
  obtain c k where z: "z = (c, k)" by (cases z)
  show ?case
    unfolding z by (simp add: Let_def py_chr_mod26 Cons.IH descifrar_letra_def)
qed

lemma cifrar_letra_AZ: "in_ascii_uppercase (cifrar_letra tk)"
proof -
  let ?x = "int (fst tk) - 65 + (int (snd tk) - 65)"
  have "0 \<le> ?x mod 26" and "?x mod 26 < 26" by simp_all
  then show ?thesis unfolding cifrar_letra_def in_ascii_uppercase_iff by linarith
qed

lemma descifrar_letra_AZ: "in_ascii_uppercase (descifrar_letra ck)"
proof -
  let ?x = "int (fst ck) - 65 - (int (snd ck) - 65)"
  have "0 \<le> ?x mod 26" and "?x mod 26 < 26" by simp_all
  then show ?thesis unfolding descifrar_letra_def in_ascii_uppercase_iff by linarith
qed

lemma descifrar_cifrar_letra:
  assumes "in_ascii_uppercase t"
  shows "descifrar_letra (cifrar_letra (t, k), k) = t"
proof -
  let ?a = "int t - 65" and ?b = "int k - 65"
  have a: "0 \<le> ?a" "?a < 26" using assms by (simp_all add: in_ascii_uppercase_iff)
  have nn: "0 \<le> (?a + ?b) mod 26 + 65"
    using pos_mod_sign [of 26 "?a + ?b"] by linarith
  have "int (cifrar_letra (t, k)) - 65 = (?a + ?b) mod 26"
    using nn by (simp add: cifrar_letra_def)
  then have "(int (cifrar_letra (t, k)) - 65 - ?b) mod 26 = ((?a + ?b) mod 26 - ?b) mod 26"
    by simp
  also have "\<dots> = (?a + ?b - ?b) mod 26" by (rule mod_diff_left_eq)
  also have "\<dots> = ?a" using a by simp
  finally show ?thesis by (simp add: descifrar_letra_def)
qed

lemma descifrar_cifrar_map:
  "length ks = length ts \<Longrightarrow> list_all in_ascii_uppercase ts \<Longrightarrow>
     map descifrar_letra (zip (map cifrar_letra (zip ts ks)) ks) = ts"
proof (induction ks ts rule: list_induct2)
  case Nil
  then show ?case by simp
next
  case (Cons k ks t ts)
  then show ?case by (simp add: descifrar_cifrar_letra)
qed

subsection \<open>The checks of validar_datos, in order\<close>

lemma invisible_not_space: "c \<in> set CARACTERES_INVISIBLES \<Longrightarrow> \<not> py_isspace c"
  by (auto simp: CARACTERES_INVISIBLES_def py_isspace_def)

lemma validar_datos_cases:
  "validar_datos ucd t k =
     (if list_all py_isspace k then Inr (False, msg_clave_vacia)
      else if \<exists>c\<in>set k. c \<in> set CARACTERES_INVISIBLES then Inl (TypeError msg_ord8)
      else if normalizar_clave ucd k = [] then Inr (False, msg_sin_letras)
      else if length (normalizar_clave ucd k) < MINIMO_CLAVE then Inr (False, msg_clave_corta)
      else if normalizar_clave ucd k \<noteq> str_upper ucd k
        then Inr (False, msg_no_validos k (normalizar_clave ucd k))
      else if list_all py_isspace t then Inr (False, msg_texto_vacio)
      else if limpiar_texto ucd t = [] then Inr (False, msg_texto_sin_letras)
      else Inr (True, []))"
proof (cases "list_all py_isspace k")
  case True
  then show ?thesis by (simp add: validar_datos_def clave_vacia_iff)
next
  case nsp: False
  show ?thesis
  proof (cases "\<exists>c\<in>set k. c \<in> set CARACTERES_INVISIBLES")
    case True
    with nsp have "validar_datos ucd t k = Inl (TypeError msg_ord8)"
      by (rule validar_datos_invisibles)
    with nsp True show ?thesis by simp
  next
    case False
    then have "detectar_invisibles k = []" by (simp add: detectar_invisibles_Nil_iff)
    with nsp False show ?thesis
      by (simp add: validar_datos_def Let_def clave_vacia_iff)
  qed
qed

lemma validar_datos_no_ValueError: "validar_datos ucd t k \<noteq> Inl (ValueError e)"
  by (simp add: validar_datos_cases)

lemma validar_datos_Inl: "validar_datos ucd t k = Inl e \<Longrightarrow> e = TypeError msg_ord8"
  by (simp add: validar_datos_cases split: if_splits)

subsection \<open>What the two operations return on validated input\<close>

lemma cifrar_vigenere_valid:
  assumes "validar_datos ucd t k = Inr (True, m)"
  shows "cifrar_vigenere ucd t k =
           Inr (map cifrar_letra (zip (limpiar_texto ucd t)
                  (repetir (normalizar_clave ucd k) (length (limpiar_texto ucd t)))))"
proof -
  from assms have "clave_ok ucd k" by (simp add: validar_datos_True_iff)
  then have "normalizar_clave ucd k \<noteq> []" by (rule clave_ok_normalizada)
  then show ?thesis
    using assms by (simp add: cifrar_vigenere_def Let_def ajustar_clave_Inr cifrar_loop_eq)
qed

lemma descifrar_vigenere_valid:
  assumes "validar_datos ucd t k = Inr (True, m)"
  shows "descifrar_vigenere ucd t k =
           Inr (map descifrar_letra (zip (limpiar_texto ucd t)
                  (repetir (normalizar_clave ucd k) (length (limpiar_texto ucd t)))), [])"
proof -
  let ?nt = "limpiar_texto ucd t" and ?nk = "normalizar_clave ucd k"
  let ?p = "map descifrar_letra (zip ?nt (repetir ?nk (length ?nt)))"
  from assms have ok: "clave_ok ucd k" and ne: "?nt \<noteq> []"
    by (simp_all add: validar_datos_True_iff)
  from ok have nk: "?nk \<noteq> []" by (rule clave_ok_normalizada)
  have "length ?p = length ?nt" using nk by (simp add: length_repetir)
  with ne have "?p \<noteq> []" by auto
  then obtain x xs where p: "?p = x # xs" by (cases ?p) auto
  then have "x \<in> set ?p" by simp
  then have "in_ascii_uppercase x" by (auto simp: descifrar_letra_AZ)
  then have "list_ex in_ascii_uppercase ?p" using p by simp
  then show ?thesis
    using assms nk
    by (simp add: descifrar_vigenere_def Let_def ajustar_clave_Inr descifrar_loop_eq)
qed

lemma list_all_map_cifrar: "list_all in_ascii_uppercase (map cifrar_letra zs)"
  by (simp add: list_all_iff cifrar_letra_AZ)

lemma list_all_map_descifrar: "list_all in_ascii_uppercase (map descifrar_letra zs)"
  by (simp add: list_all_iff descifrar_letra_AZ)

lemma AZ_not_all_space:
  "s \<noteq> [] \<Longrightarrow> list_all in_ascii_uppercase s \<Longrightarrow> \<not> list_all py_isspace s"
  by (cases s) (auto simp: AZ_not_space)

lemma ejemplo_valido:
  "validar_datos ucd (cps ''ATAQUE AL AMANECER'') (cps ''CLAVE'') = Inr (True, [])"
  by (simp add: validar_datos_cases cps_def py_isspace_def CARACTERES_INVISIBLES_def
      normalizar_clave_def limpiar_texto_def str_upper_def upper_cp_def
      in_ascii_uppercase_iff MINIMO_CLAVE_def)

section \<open>The claims\<close>

text \<open>
  C1. For every text and key that \<open>validar_datos\<close> accepts, encrypting and then
  decrypting with the same key gives back the normalized text \<open>limpiar_texto t\<close>
  (and decrypting logs no warning).
\<close>

theorem descifrar_cifrar:
  assumes "validar_datos ucd t k = Inr (True, m)"
  shows "\<exists>c. cifrar_vigenere ucd t k = Inr c
           \<and> descifrar_vigenere ucd c k = Inr (limpiar_texto ucd t, [])"
proof -
  let ?nt = "limpiar_texto ucd t" and ?nk = "normalizar_clave ucd k"
  let ?e = "repetir ?nk (length ?nt)"
  let ?c = "map cifrar_letra (zip ?nt ?e)"
  from assms have ok: "clave_ok ucd k" and ne: "?nt \<noteq> []"
    by (simp_all add: validar_datos_True_iff)
  from ok have nk: "?nk \<noteq> []" by (rule clave_ok_normalizada)
  have len_e: "length ?e = length ?nt" using nk by (rule length_repetir)
  then have len_c: "length ?c = length ?nt" by simp
  have az: "list_all in_ascii_uppercase ?c" by (rule list_all_map_cifrar)
  have c_ne: "?c \<noteq> []" using len_c ne by auto
  have lfix: "limpiar_texto ucd ?c = ?c" using az by (rule limpiar_texto_fix)
  have "\<not> list_all py_isspace ?c" using c_ne az by (rule AZ_not_all_space)
  then have "validar_datos ucd ?c k = Inr (True, [])"
    using ok c_ne by (simp only: validar_datos_True_iff lfix simp_thms)
  then have "descifrar_vigenere ucd ?c k =
      Inr (map descifrar_letra (zip (limpiar_texto ucd ?c)
             (repetir ?nk (length (limpiar_texto ucd ?c)))), [])"
    by (rule descifrar_vigenere_valid)
  also have "\<dots> = Inr (map descifrar_letra (zip ?c ?e), [])"
    by (simp only: lfix len_c)
  also have "map descifrar_letra (zip ?c ?e) = ?nt"
    using len_e limpiar_texto_AZ by (rule descifrar_cifrar_map)
  finally have "descifrar_vigenere ucd ?c k = Inr (?nt, [])" .
  moreover have "cifrar_vigenere ucd t k = Inr ?c"
    using assms by (rule cifrar_vigenere_valid)
  ultimately show ?thesis by blast
qed

theorem descifrar_cifrar_witness:
  "validar_datos ucd_excerpt (cps ''ATAQUE AL AMANECER'') (cps ''CLAVE'') = Inr (True, [])
   \<and> (\<exists>c. cifrar_vigenere ucd_excerpt (cps ''ATAQUE AL AMANECER'') (cps ''CLAVE'') = Inr c
          \<and> descifrar_vigenere ucd_excerpt c (cps ''CLAVE'')
              = Inr (limpiar_texto ucd_excerpt (cps ''ATAQUE AL AMANECER''), []))"
  using descifrar_cifrar [OF ejemplo_valido [of ucd_excerpt]] ejemplo_valido [of ucd_excerpt]
  by simp

text \<open>
  C2. On validated input both operations return a string that contains only characters
  of A-Z and is as long as the normalized input text.
\<close>

theorem salida_solo_letras:
  assumes "validar_datos ucd t k = Inr (True, m)"
  shows "\<exists>c p w. cifrar_vigenere ucd t k = Inr c
           \<and> list_all in_ascii_uppercase c \<and> length c = length (limpiar_texto ucd t)
           \<and> descifrar_vigenere ucd t k = Inr (p, w)
           \<and> list_all in_ascii_uppercase p \<and> length p = length (limpiar_texto ucd t)"
proof -
  let ?nt = "limpiar_texto ucd t" and ?nk = "normalizar_clave ucd k"
  let ?e = "repetir ?nk (length ?nt)"
  from assms have "clave_ok ucd k" by (simp add: validar_datos_True_iff)
  then have "?nk \<noteq> []" by (rule clave_ok_normalizada)
  then have len_e: "length ?e = length ?nt" by (rule length_repetir)
  have "cifrar_vigenere ucd t k = Inr (map cifrar_letra (zip ?nt ?e))"
    using assms by (rule cifrar_vigenere_valid)
  moreover have "descifrar_vigenere ucd t k = Inr (map descifrar_letra (zip ?nt ?e), [])"
    using assms by (rule descifrar_vigenere_valid)
  moreover have "length (map cifrar_letra (zip ?nt ?e)) = length ?nt"
    and "length (map descifrar_letra (zip ?nt ?e)) = length ?nt"
    using len_e by simp_all
  ultimately show ?thesis
    using list_all_map_cifrar list_all_map_descifrar by blast
qed

theorem salida_solo_letras_witness:
  "validar_datos ucd_excerpt (cps ''ATAQUE AL AMANECER'') (cps ''CLAVE'') = Inr (True, [])
   \<and> (\<exists>c p w. cifrar_vigenere ucd_excerpt (cps ''ATAQUE AL AMANECER'') (cps ''CLAVE'') = Inr c
          \<and> list_all in_ascii_uppercase c
          \<and> length c = length (limpiar_texto ucd_excerpt (cps ''ATAQUE AL AMANECER''))
          \<and> descifrar_vigenere ucd_excerpt (cps ''ATAQUE AL AMANECER'') (cps ''CLAVE'') = Inr (p, w)
          \<and> list_all in_ascii_uppercase p
          \<and> length p = length (limpiar_texto ucd_excerpt (cps ''ATAQUE AL AMANECER'')))"
  using salida_solo_letras [OF ejemplo_valido [of ucd_excerpt]] ejemplo_valido [of ucd_excerpt]
  by simp

text \<open>
  C10. On validated input the decrypted text is not empty and all its characters are in
  A-Z, so it contains a character of A-Z and the warning about a wrong key is not logged.
\<close>

theorem aviso_inalcanzable:
  assumes "validar_datos ucd c k = Inr (True, m)"
  shows "\<exists>p. descifrar_vigenere ucd c k = Inr (p, [])
           \<and> p \<noteq> [] \<and> list_all in_ascii_uppercase p \<and> list_ex in_ascii_uppercase p"
proof -
  let ?nt = "limpiar_texto ucd c" and ?nk = "normalizar_clave ucd k"
  let ?p = "map descifrar_letra (zip ?nt (repetir ?nk (length ?nt)))"
  from assms have ok: "clave_ok ucd k" and ne: "?nt \<noteq> []"
    by (simp_all add: validar_datos_True_iff)
  from ok have "?nk \<noteq> []" by (rule clave_ok_normalizada)
  then have "length ?p = length ?nt" by (simp add: length_repetir)
  with ne have p_ne: "?p \<noteq> []" by auto
  have az: "list_all in_ascii_uppercase ?p" by (rule list_all_map_descifrar)
  from p_ne az have "list_ex in_ascii_uppercase ?p" by (cases ?p) auto
  moreover have "descifrar_vigenere ucd c k = Inr (?p, [])"
    using assms by (rule descifrar_vigenere_valid)
  ultimately show ?thesis using p_ne az by blast
qed

theorem aviso_inalcanzable_witness:
  "validar_datos ucd_excerpt (cps ''ATAQUE AL AMANECER'') (cps ''CLAVE'') = Inr (True, [])
   \<and> (\<exists>p. descifrar_vigenere ucd_excerpt (cps ''ATAQUE AL AMANECER'') (cps ''CLAVE'') = Inr (p, [])
          \<and> p \<noteq> [] \<and> list_all in_ascii_uppercase p \<and> list_ex in_ascii_uppercase p)"
  using aviso_inalcanzable [OF ejemplo_valido [of ucd_excerpt]] ejemplo_valido [of ucd_excerpt]
  by simp

text \<open>
  C7. On validated input, with \<open>nt\<close> the normalized text and \<open>e\<close> the key expanded to its
  length, character \<open>i\<close> of the encrypted text is
  \<open>chr((ord(nt[i]) - ord('A') + ord(e[i]) - ord('A')) mod 26 + ord('A'))\<close>, and character
  \<open>i\<close> of the decrypted text is the same with the key's offset subtracted modulo 26
  (\<open>ord('A')\<close> is 65).
\<close>

theorem formula_por_posicion:
  assumes "validar_datos ucd t k = Inr (True, m)"
  shows "\<exists>e c p w. ajustar_clave ucd (limpiar_texto ucd t) k = Inr e
           \<and> cifrar_vigenere ucd t k = Inr c
           \<and> length c = length (limpiar_texto ucd t)
           \<and> (\<forall>i<length (limpiar_texto ucd t).
                 int (c ! i) = (int (limpiar_texto ucd t ! i) - 65 + int (e ! i) - 65) mod 26 + 65)
           \<and> descifrar_vigenere ucd t k = Inr (p, w)
           \<and> length p = length (limpiar_texto ucd t)
           \<and> (\<forall>i<length (limpiar_texto ucd t).
                 int (p ! i) = (int (limpiar_texto ucd t ! i) - 65 - (int (e ! i) - 65)) mod 26 + 65
                 \<and> 65 \<le> p ! i \<and> p ! i \<le> 90)"
proof -
  let ?nt = "limpiar_texto ucd t" and ?nk = "normalizar_clave ucd k"
  let ?e = "repetir ?nk (length ?nt)"
  let ?c = "map cifrar_letra (zip ?nt ?e)" and ?p = "map descifrar_letra (zip ?nt ?e)"
  from assms have "clave_ok ucd k" by (simp add: validar_datos_True_iff)
  then have nk: "?nk \<noteq> []" by (rule clave_ok_normalizada)
  then have len_e: "length ?e = length ?nt" by (rule length_repetir)
  have e: "ajustar_clave ucd ?nt k = Inr ?e" using nk by (rule ajustar_clave_Inr)
  have c: "cifrar_vigenere ucd t k = Inr ?c" using assms by (rule cifrar_vigenere_valid)
  have p: "descifrar_vigenere ucd t k = Inr (?p, [])"
    using assms by (rule descifrar_vigenere_valid)
  have lc: "length ?c = length ?nt" and lp: "length ?p = length ?nt" using len_e by simp_all
  have fc: "\<forall>i<length ?nt. int (?c ! i) = (int (?nt ! i) - 65 + int (?e ! i) - 65) mod 26 + 65"
  proof (intro allI impI)
    fix i assume i: "i < length ?nt"
    let ?x = "int (?nt ! i) - 65 + (int (?e ! i) - 65)"
    have "0 \<le> ?x mod 26" by simp
    then have "int (nat (?x mod 26 + 65)) = ?x mod 26 + 65" by simp
    moreover have "?c ! i = nat (?x mod 26 + 65)"
      using i len_e by (simp add: cifrar_letra_def)
    moreover have "?x = int (?nt ! i) - 65 + int (?e ! i) - 65" by simp
    ultimately show "int (?c ! i) = (int (?nt ! i) - 65 + int (?e ! i) - 65) mod 26 + 65"
      by simp
  qed
  have fp: "\<forall>i<length ?nt.
      int (?p ! i) = (int (?nt ! i) - 65 - (int (?e ! i) - 65)) mod 26 + 65
      \<and> 65 \<le> ?p ! i \<and> ?p ! i \<le> 90"
  proof (intro allI impI)
    fix i assume i: "i < length ?nt"
    let ?x = "int (?nt ! i) - 65 - (int (?e ! i) - 65)"
    have "0 \<le> ?x mod 26" by simp
    then have "int (nat (?x mod 26 + 65)) = ?x mod 26 + 65" by simp
    moreover have pi: "?p ! i = descifrar_letra (?nt ! i, ?e ! i)"
      using i len_e by simp
    moreover have "descifrar_letra (?nt ! i, ?e ! i) = nat (?x mod 26 + 65)"
      by (simp add: descifrar_letra_def)
    moreover have "in_ascii_uppercase (?p ! i)"
      unfolding pi by (rule descifrar_letra_AZ)
    ultimately show "int (?p ! i) = ?x mod 26 + 65 \<and> 65 \<le> ?p ! i \<and> ?p ! i \<le> 90"
      by (simp add: in_ascii_uppercase_iff)
  qed
  from e c lc fc p lp fp show ?thesis by blast
qed

theorem formula_por_posicion_witness:
  "validar_datos ucd_excerpt (cps ''ATAQUE AL AMANECER'') (cps ''CLAVE'') = Inr (True, [])
   \<and> (\<exists>e c p w.
         ajustar_clave ucd_excerpt (limpiar_texto ucd_excerpt (cps ''ATAQUE AL AMANECER''))
           (cps ''CLAVE'') = Inr e
       \<and> cifrar_vigenere ucd_excerpt (cps ''ATAQUE AL AMANECER'') (cps ''CLAVE'') = Inr c
       \<and> length c = length (limpiar_texto ucd_excerpt (cps ''ATAQUE AL AMANECER''))
       \<and> (\<forall>i<length (limpiar_texto ucd_excerpt (cps ''ATAQUE AL AMANECER'')).
             int (c ! i) = (int (limpiar_texto ucd_excerpt (cps ''ATAQUE AL AMANECER'') ! i) - 65
                            + int (e ! i) - 65) mod 26 + 65)
       \<and> descifrar_vigenere ucd_excerpt (cps ''ATAQUE AL AMANECER'') (cps ''CLAVE'') = Inr (p, w)
       \<and> length p = length (limpiar_texto ucd_excerpt (cps ''ATAQUE AL AMANECER''))
       \<and> (\<forall>i<length (limpiar_texto ucd_excerpt (cps ''ATAQUE AL AMANECER'')).
             int (p ! i) = (int (limpiar_texto ucd_excerpt (cps ''ATAQUE AL AMANECER'') ! i) - 65
                            - (int (e ! i) - 65)) mod 26 + 65
             \<and> 65 \<le> p ! i \<and> p ! i \<le> 90))"
  using formula_por_posicion [OF ejemplo_valido [of ucd_excerpt]]
    ejemplo_valido [of ucd_excerpt]
  by simp

text \<open>
  How the two operations pass on the outcome of \<open>validar_datos\<close>: a returned
  (False, message) becomes ValueError with that message, a returned (True, _) leads to a
  result, and an exception raised by \<open>validar_datos\<close> itself leaves both operations
  unchanged; such an exception is never a ValueError.
\<close>

lemma propagacion_de_validacion:
  "(cifrar_vigenere ucd t k = Inl (ValueError msg) \<longleftrightarrow> validar_datos ucd t k = Inr (False, msg))
   \<and> (descifrar_vigenere ucd t k = Inl (ValueError msg)
        \<longleftrightarrow> validar_datos ucd t k = Inr (False, msg))
   \<and> (validar_datos ucd t k = Inr (True, m)
        \<longrightarrow> (\<exists>c p w. cifrar_vigenere ucd t k = Inr c \<and> descifrar_vigenere ucd t k = Inr (p, w)))
   \<and> (validar_datos ucd t k = Inl e
        \<longrightarrow> cifrar_vigenere ucd t k = Inl e \<and> descifrar_vigenere ucd t k = Inl e
            \<and> e \<noteq> ValueError msg)"
proof (cases "validar_datos ucd t k")
  case (Inl e)
  then have "e = TypeError msg_ord8" by (rule validar_datos_Inl)
  with Inl show ?thesis by (auto simp: cifrar_vigenere_def descifrar_vigenere_def)
next
  case (Inr r)
  obtain valido mensaje where r: "r = (valido, mensaje)" by (cases r)
  show ?thesis
  proof (cases valido)
    case True
    with Inr r have v: "validar_datos ucd t k = Inr (True, mensaje)" by simp
    from v have "cifrar_vigenere ucd t k =
        Inr (map cifrar_letra (zip (limpiar_texto ucd t)
               (repetir (normalizar_clave ucd k) (length (limpiar_texto ucd t)))))"
      by (rule cifrar_vigenere_valid)
    moreover from v have "descifrar_vigenere ucd t k =
        Inr (map descifrar_letra (zip (limpiar_texto ucd t)
               (repetir (normalizar_clave ucd k) (length (limpiar_texto ucd t)))), [])"
      by (rule descifrar_vigenere_valid)
    ultimately show ?thesis using v by simp
  next
    case False
    with Inr r have v: "validar_datos ucd t k = Inr (False, mensaje)" by simp
    then have "cifrar_vigenere ucd t k = Inl (ValueError mensaje)"
      and "descifrar_vigenere ucd t k = Inl (ValueError mensaje)"
      by (simp_all add: cifrar_vigenere_def descifrar_vigenere_def)
    then show ?thesis using v by auto
  qed
qed

lemma ejemplo_clave_corta:
  "validar_datos ucd (cps ''HOLA'') (cps ''AB'') = Inr (False, msg_clave_corta)"
  by (simp add: validar_datos_cases cps_def py_isspace_def CARACTERES_INVISIBLES_def
      normalizar_clave_def limpiar_texto_def str_upper_def upper_cp_def
      in_ascii_uppercase_iff MINIMO_CLAVE_def)

lemma ejemplo_invisible:
  "validar_datos ucd (cps ''HOLA'') (0x200B # cps ''CLAVE'') = Inl (TypeError msg_ord8)"
  by (simp add: validar_datos_cases cps_def py_isspace_def CARACTERES_INVISIBLES_def)

text \<open>
  C9. The code departs from the claim for a key with an invisible character (here U+200B
  before "CLAVE"): \<open>validar_datos\<close> returns neither verdict, it raises TypeError, and
  that TypeError leaves \<open>cifrar_vigenere\<close> and \<open>descifrar_vigenere\<close>. Neither
  operation raises ValueError with a validation message and neither returns a string.
\<close>

theorem operaciones_clave_invisible:
  "validar_datos ucd (cps ''HOLA'') (0x200B # cps ''CLAVE'') = Inl (TypeError msg_ord8)
   \<and> cifrar_vigenere ucd (cps ''HOLA'') (0x200B # cps ''CLAVE'') = Inl (TypeError msg_ord8)
   \<and> descifrar_vigenere ucd (cps ''HOLA'') (0x200B # cps ''CLAVE'') = Inl (TypeError msg_ord8)"
  by (simp add: cifrar_vigenere_def descifrar_vigenere_def ejemplo_invisible)

text \<open>
  C6. When the normalized key is not empty, \<open>ajustar_clave\<close> returns the normalized key
  repeated and cut to the length of the text: the result is as long as the text and its
  character \<open>i\<close> is character \<open>i mod len\<close> of the normalized key; for the empty text it is
  the empty string. When the normalized key is empty it raises ValueError. The two examples
  of the specification hold.
\<close>

theorem ajustar_clave_repite:
  "(normalizar_clave ucd k \<noteq> [] \<longrightarrow>
      (\<exists>e. ajustar_clave ucd t k = Inr e \<and> length e = length t
         \<and> (\<forall>i<length t. e ! i = normalizar_clave ucd k ! (i mod length (normalizar_clave ucd k)))
         \<and> (t = [] \<longrightarrow> e = [])))
   \<and> (normalizar_clave ucd k = [] \<longrightarrow> ajustar_clave ucd t k = Inl (ValueError msg_clave_vacia))
   \<and> ajustar_clave ucd (cps ''HOLA'') (cps ''A'') = Inr (cps ''AAAA'')
   \<and> ajustar_clave ucd (cps ''HOLAMUNDO'') (cps ''AB'') = Inr (cps ''ABABABABA'')"
proof (intro conjI impI)
  assume nk: "normalizar_clave ucd k \<noteq> []"
  let ?e = "repetir (normalizar_clave ucd k) (length t)"
  have "ajustar_clave ucd t k = Inr ?e" using nk by (rule ajustar_clave_Inr)
  moreover have len: "length ?e = length t" using nk by (rule length_repetir)
  moreover have "\<forall>i<length t. ?e ! i = normalizar_clave ucd k ! (i mod length (normalizar_clave ucd k))"
    using nk by (simp add: nth_repetir)
  moreover have "t = [] \<longrightarrow> ?e = []" using len by auto
  ultimately show "\<exists>e. ajustar_clave ucd t k = Inr e \<and> length e = length t
         \<and> (\<forall>i<length t. e ! i = normalizar_clave ucd k ! (i mod length (normalizar_clave ucd k)))
         \<and> (t = [] \<longrightarrow> e = [])"
    by blast
next
  assume "normalizar_clave ucd k = []"
  then show "ajustar_clave ucd t k = Inl (ValueError msg_clave_vacia)"
    by (rule ajustar_clave_Inl)
next
  show "ajustar_clave ucd (cps ''HOLA'') (cps ''A'') = Inr (cps ''AAAA'')"
    by code_simp
next
  show "ajustar_clave ucd (cps ''HOLAMUNDO'') (cps ''AB'') = Inr (cps ''ABABABABA'')"
    by code_simp
qed

lemma normalizar_AB: "normalizar_clave ucd (cps ''ab'') = cps ''AB''"
  by (simp add: normalizar_clave_def str_upper_def upper_cp_def cps_def in_ascii_uppercase_iff)

lemma normalizar_12: "normalizar_clave ucd (cps ''12'') = []"
  by (simp add: normalizar_clave_def str_upper_def upper_cp_def cps_def in_ascii_uppercase_iff)

theorem ajustar_clave_repite_witness:
  "normalizar_clave ucd_excerpt (cps ''ab'') \<noteq> []
   \<and> ajustar_clave ucd_excerpt (cps ''HOLAMUNDO'') (cps ''ab'') = Inr (cps ''ABABABABA'')
   \<and> normalizar_clave ucd_excerpt (cps ''12'') = []
   \<and> ajustar_clave ucd_excerpt (cps ''HOLAMUNDO'') (cps ''12'') = Inl (ValueError msg_clave_vacia)
   \<and> ajustar_clave ucd_excerpt [] (cps ''ab'') = Inr []"
proof -
  have a: "normalizar_clave ucd_excerpt (cps ''ab'') \<noteq> []"
    unfolding normalizar_AB by (simp add: cps_def)
  have b: "normalizar_clave ucd_excerpt (cps ''12'') = []" by (rule normalizar_12)
  from ajustar_clave_repite [of ucd_excerpt "cps ''ab''" "[]"] a
  have c: "ajustar_clave ucd_excerpt [] (cps ''ab'') = Inr []" by auto
  from ajustar_clave_repite [of ucd_excerpt "cps ''12''" "cps ''HOLAMUNDO''"] b
  have d: "ajustar_clave ucd_excerpt (cps ''HOLAMUNDO'') (cps ''12'')
             = Inl (ValueError msg_clave_vacia)" by simp
  have e: "ajustar_clave ucd_excerpt (cps ''HOLAMUNDO'') (cps ''ab'') = Inr (cps ''ABABABABA'')"
    by code_simp
  from a b c d e show ?thesis by simp
qed

lemma limpiar_demo: "limpiar_texto ucd (cps ''ATAQUE AL AMANECER'') = cps ''ATAQUEALAMANECER''"
  by (simp add: limpiar_texto_def str_upper_def upper_cp_def cps_def in_ascii_uppercase_iff)

lemma AZ_demo: "list_all in_ascii_uppercase (cps ''ATAQUEALAMANECER'')"
  by (simp add: cps_def in_ascii_uppercase_iff)

lemma AZ_cifrado: "list_all in_ascii_uppercase (cps ''CEALYGLLVQCYEXIT'')"
  by (simp add: cps_def in_ascii_uppercase_iff)

lemma AZ_clave: "list_all in_ascii_uppercase (cps ''CLAVE'')"
  by (simp add: cps_def in_ascii_uppercase_iff)

lemma normalizar_demo: "normalizar_clave ucd (cps ''CLAVE'') = cps ''CLAVE''"
  by (simp add: normalizar_clave_limpiar limpiar_texto_fix AZ_clave)

lemma repetir_demo: "repetir (cps ''CLAVE'') 16 = cps ''CLAVECLAVECLAVEC''"
  by code_simp

lemma cifrar_letras_demo:
  "map cifrar_letra (zip (cps ''ATAQUEALAMANECER'') (cps ''CLAVECLAVECLAVEC''))
     = cps ''CEALYGLLVQCYEXIT''"
  by code_simp

lemma descifrar_letras_demo:
  "map descifrar_letra (zip (cps ''CEALYGLLVQCYEXIT'') (cps ''CLAVECLAVECLAVEC''))
     = cps ''ATAQUEALAMANECER''"
  by code_simp


lemma longitud_demo: "length (cps ''ATAQUEALAMANECER'') = 16"
  by (simp add: cps_def)

lemma cifrar_demo:
  "cifrar_vigenere ucd (cps ''ATAQUEALAMANECER'') (cps ''CLAVE'') = Inr (cps ''CEALYGLLVQCYEXIT'')"
proof -
  have "cps ''ATAQUEALAMANECER'' \<noteq> []" by (simp add: cps_def)
  then have "\<not> list_all py_isspace (cps ''ATAQUEALAMANECER'')"
    using AZ_demo by (rule AZ_not_all_space)
  moreover have "clave_ok ucd (cps ''CLAVE'')"
    using ejemplo_valido [of ucd] by (simp add: validar_datos_True_iff)
  moreover have "limpiar_texto ucd (cps ''ATAQUEALAMANECER'') = cps ''ATAQUEALAMANECER''"
    using AZ_demo by (rule limpiar_texto_fix)
  moreover have "cps ''ATAQUEALAMANECER'' \<noteq> []" by (simp add: cps_def)
  ultimately have "validar_datos ucd (cps ''ATAQUEALAMANECER'') (cps ''CLAVE'') = Inr (True, [])"
    by (simp only: validar_datos_True_iff simp_thms)
  then have "cifrar_vigenere ucd (cps ''ATAQUEALAMANECER'') (cps ''CLAVE'') =
      Inr (map cifrar_letra (zip (limpiar_texto ucd (cps ''ATAQUEALAMANECER''))
             (repetir (normalizar_clave ucd (cps ''CLAVE''))
                (length (limpiar_texto ucd (cps ''ATAQUEALAMANECER''))))))"
    by (rule cifrar_vigenere_valid)
  then show ?thesis
    by (simp only: limpiar_texto_fix [OF AZ_demo] normalizar_demo longitud_demo repetir_demo
        cifrar_letras_demo)
qed

lemma longitud_cifrado: "length (cps ''CEALYGLLVQCYEXIT'') = 16"
  by (simp add: cps_def)

lemma descifrar_demo:
  "descifrar_vigenere ucd (cps ''CEALYGLLVQCYEXIT'') (cps ''CLAVE'')
     = Inr (cps ''ATAQUEALAMANECER'', [])"
proof -
  have ne: "cps ''CEALYGLLVQCYEXIT'' \<noteq> []" by (simp add: cps_def)
  then have "\<not> list_all py_isspace (cps ''CEALYGLLVQCYEXIT'')"
    using AZ_cifrado by (rule AZ_not_all_space)
  moreover have "clave_ok ucd (cps ''CLAVE'')"
    using ejemplo_valido [of ucd] by (simp add: validar_datos_True_iff)
  moreover have "limpiar_texto ucd (cps ''CEALYGLLVQCYEXIT'') = cps ''CEALYGLLVQCYEXIT''"
    using AZ_cifrado by (rule limpiar_texto_fix)
  ultimately have "validar_datos ucd (cps ''CEALYGLLVQCYEXIT'') (cps ''CLAVE'') = Inr (True, [])"
    using ne by (simp only: validar_datos_True_iff simp_thms)
  then have "descifrar_vigenere ucd (cps ''CEALYGLLVQCYEXIT'') (cps ''CLAVE'') =
      Inr (map descifrar_letra (zip (limpiar_texto ucd (cps ''CEALYGLLVQCYEXIT''))
             (repetir (normalizar_clave ucd (cps ''CLAVE''))
                (length (limpiar_texto ucd (cps ''CEALYGLLVQCYEXIT''))))), [])"
    by (rule descifrar_vigenere_valid)
  then show ?thesis
    by (simp only: limpiar_texto_fix [OF AZ_cifrado] normalizar_demo longitud_cifrado
        repetir_demo descifrar_letras_demo)
qed

text \<open>
  C5, as amended. \<open>limpiar_texto\<close> of "ATAQUE AL AMANECER" is "ATAQUEALAMANECER", which
  has length 16; encrypting "ATAQUEALAMANECER" with "CLAVE" gives the A-Z string
  "CEALYGLLVQCYEXIT", and decrypting that with "CLAVE" gives "ATAQUEALAMANECER" back.
\<close>

theorem ejemplo_ataque:
  "limpiar_texto ucd (cps ''ATAQUE AL AMANECER'') = cps ''ATAQUEALAMANECER''
   \<and> length (limpiar_texto ucd (cps ''ATAQUE AL AMANECER'')) = 16
   \<and> cifrar_vigenere ucd (cps ''ATAQUEALAMANECER'') (cps ''CLAVE'') = Inr (cps ''CEALYGLLVQCYEXIT'')
   \<and> list_all in_ascii_uppercase (cps ''CEALYGLLVQCYEXIT'')
   \<and> descifrar_vigenere ucd (cps ''CEALYGLLVQCYEXIT'') (cps ''CLAVE'')
       = Inr (cps ''ATAQUEALAMANECER'', [])"
  by (simp only: limpiar_demo longitud_demo cifrar_demo AZ_cifrado descifrar_demo simp_thms)

text \<open>
  C5 as stated fails on the length: the normalized example has 16 characters, not 17.
\<close>

theorem longitud_17_counterexample:
  "\<not> (limpiar_texto ucd_excerpt (cps ''ATAQUE AL AMANECER'') = cps ''ATAQUEALAMANECER''
      \<and> length (limpiar_texto ucd_excerpt (cps ''ATAQUE AL AMANECER'')) = 17)"
  by (simp add: limpiar_demo longitud_demo)

lemma limpiar_texto_concat:
  "limpiar_texto ucd t = concat (map (\<lambda>c. filter in_ascii_uppercase (upper_cp ucd c)) t)"
  by (induction t) (simp_all add: limpiar_texto_def str_upper_def)

lemma upper_cp_ascii:
  "c < 128 \<Longrightarrow> filter in_ascii_uppercase (upper_cp ucd c) =
     (if 65 \<le> c \<and> c \<le> 90 then [c] else if 97 \<le> c \<and> c \<le> 122 then [c - 32] else [])"
  by (auto simp: upper_cp_def in_ascii_uppercase_iff)

text \<open>
  C8, as amended. \<open>limpiar_texto\<close> is idempotent and its result contains only characters
  of A-Z; it is a total function. Its result is the concatenation, over the characters of
  the text in order, of the A-Z letters of the uppercase form of each character: an ASCII
  letter gives its uppercase letter, any other ASCII character gives nothing, a character
  beyond ASCII gives the A-Z letters of its uppercase form in the interpreter's table. A
  text none of whose characters has a letter of A-Z in its uppercase form gives the empty
  string.
\<close>

theorem limpiar_texto_idempotente:
  "limpiar_texto ucd (limpiar_texto ucd t) = limpiar_texto ucd t
   \<and> list_all in_ascii_uppercase (limpiar_texto ucd t)
   \<and> limpiar_texto ucd t = concat (map (\<lambda>c. filter in_ascii_uppercase (upper_cp ucd c)) t)
   \<and> (\<forall>c<128. filter in_ascii_uppercase (upper_cp ucd c) =
         (if 65 \<le> c \<and> c \<le> 90 then [c] else if 97 \<le> c \<and> c \<le> 122 then [c - 32] else []))
   \<and> (\<forall>c\<ge>128. filter in_ascii_uppercase (upper_cp ucd c) = filter in_ascii_uppercase (ucd c))
   \<and> ((\<forall>c\<in>set t. \<not> list_ex in_ascii_uppercase (upper_cp ucd c)) \<longrightarrow> limpiar_texto ucd t = [])"
proof (intro conjI)
  show "limpiar_texto ucd (limpiar_texto ucd t) = limpiar_texto ucd t"
    using limpiar_texto_AZ by (rule limpiar_texto_fix)
  show "list_all in_ascii_uppercase (limpiar_texto ucd t)" by (rule limpiar_texto_AZ)
  show "limpiar_texto ucd t = concat (map (\<lambda>c. filter in_ascii_uppercase (upper_cp ucd c)) t)"
    by (rule limpiar_texto_concat)
  show "\<forall>c<128. filter in_ascii_uppercase (upper_cp ucd c) =
         (if 65 \<le> c \<and> c \<le> 90 then [c] else if 97 \<le> c \<and> c \<le> 122 then [c - 32] else [])"
    by (intro allI impI) (rule upper_cp_ascii)
  show "\<forall>c\<ge>128. filter in_ascii_uppercase (upper_cp ucd c) = filter in_ascii_uppercase (ucd c)"
    by (simp add: upper_cp_def)
  show "(\<forall>c\<in>set t. \<not> list_ex in_ascii_uppercase (upper_cp ucd c)) \<longrightarrow> limpiar_texto ucd t = []"
    by (auto simp: limpiar_texto_concat list_ex_iff filter_empty_conv)
qed

theorem limpiar_texto_idempotente_witness:
  "limpiar_texto ucd_excerpt (cps ''123 456'') = []
   \<and> (97::nat) < 128 \<and> filter in_ascii_uppercase (upper_cp ucd_excerpt 97) = [65]
   \<and> (223::nat) \<ge> 128
   \<and> filter in_ascii_uppercase (upper_cp ucd_excerpt 223) = [83, 83]"
proof -
  note inst = limpiar_texto_idempotente [of ucd_excerpt "cps ''123 456''"]
  have h: "\<forall>c\<in>set (cps ''123 456''). \<not> list_ex in_ascii_uppercase (upper_cp ucd_excerpt c)"
    by (simp add: cps_def upper_cp_def in_ascii_uppercase_iff)
  from inst have "(\<forall>c\<in>set (cps ''123 456''). \<not> list_ex in_ascii_uppercase (upper_cp ucd_excerpt c))
      \<longrightarrow> limpiar_texto ucd_excerpt (cps ''123 456'') = []"
    by (elim conjE)
  with h have e: "limpiar_texto ucd_excerpt (cps ''123 456'') = []" by (rule rev_mp)
  from inst have lo: "\<forall>c<128. filter in_ascii_uppercase (upper_cp ucd_excerpt c) =
         (if 65 \<le> c \<and> c \<le> 90 then [c] else if 97 \<le> c \<and> c \<le> 122 then [c - 32] else [])"
    by (elim conjE)
  have a: "filter in_ascii_uppercase (upper_cp ucd_excerpt 97) = [65]"
    using lo [rule_format, of 97] by simp
  from inst have hi: "\<forall>c\<ge>128. filter in_ascii_uppercase (upper_cp ucd_excerpt c)
         = filter in_ascii_uppercase (ucd_excerpt c)"
    by (elim conjE)
  have u: "filter in_ascii_uppercase (ucd_excerpt 223) = [83, 83]"
    by (simp add: ucd_excerpt_def in_ascii_uppercase_iff)
  have b: "filter in_ascii_uppercase (upper_cp ucd_excerpt 223) = [83, 83]"
    using hi [rule_format, of 223] u by simp
  from e a b show ?thesis by simp
qed

text \<open>
  C8 as stated fails on accented letters: U+01F0 (small j with caron) uppercases to J
  followed by a combining caron, so its J stays in the normalized text.
\<close>

theorem limpiar_texto_acento_counterexample:
  "limpiar_texto ucd_excerpt [0x1F0] = cps ''J'' \<and> limpiar_texto ucd_excerpt [0x1F0] \<noteq> []"
  by (simp add: limpiar_texto_def str_upper_def upper_cp_def ucd_excerpt_def cps_def
      in_ascii_uppercase_iff)

text \<open>
  C3. The code departs from the stated order at check 2: for a key with an invisible
  character (here U+FEFF before "AB") \<open>validar_datos\<close> returns no reason, it raises
  TypeError. The two examples of the claim hold: "AB" is too short, "AB12CD" has
  characters that are not valid.
\<close>

theorem validar_datos_orden_ejemplos:
  "validar_datos ucd (cps ''HOLA'') (0xFEFF # cps ''AB'') = Inl (TypeError msg_ord8)
   \<and> validar_datos ucd (cps ''HOLA'') (cps ''AB'') = Inr (False, msg_clave_corta)
   \<and> validar_datos ucd (cps ''HOLA'') (cps ''AB12CD'')
       = Inr (False, msg_no_validos (cps ''AB12CD'') (cps ''ABCD''))"
proof (intro conjI)
  show "validar_datos ucd (cps ''HOLA'') (0xFEFF # cps ''AB'') = Inl (TypeError msg_ord8)"
    by (simp add: validar_datos_cases cps_def py_isspace_def CARACTERES_INVISIBLES_def)
  show "validar_datos ucd (cps ''HOLA'') (cps ''AB'') = Inr (False, msg_clave_corta)"
    by (rule ejemplo_clave_corta)
  have n: "normalizar_clave ucd (cps ''AB12CD'') = cps ''ABCD''"
    by (simp add: normalizar_clave_def str_upper_def upper_cp_def cps_def in_ascii_uppercase_iff)
  have u: "str_upper ucd (cps ''AB12CD'') = cps ''AB12CD''"
    by (simp add: str_upper_def upper_cp_def cps_def)
  show "validar_datos ucd (cps ''HOLA'') (cps ''AB12CD'')
       = Inr (False, msg_no_validos (cps ''AB12CD'') (cps ''ABCD''))"
    unfolding validar_datos_cases n u
    by (simp add: cps_def py_isspace_def CARACTERES_INVISIBLES_def MINIMO_CLAVE_def)
qed

text \<open>
  C4. For every key that contains a character of \<open>CARACTERES_INVISIBLES\<close> the code does
  not return a message with the code points: \<open>ord\<close> is applied to the \<open>repr\<close> of the
  character, a string of eight characters, and raises TypeError.
\<close>

theorem clave_invisible_TypeError:
  assumes "c \<in> set CARACTERES_INVISIBLES" and "c \<in> set k"
  shows "validar_datos ucd t k = Inl (TypeError msg_ord8)
         \<and> codigos_gen (detectar_invisibles k) = Inl (TypeError msg_ord8)"
proof -
  from assms have "\<not> py_isspace c" by (simp add: invisible_not_space)
  with assms(2) have nsp: "\<not> list_all py_isspace k" by (auto simp: list_all_iff)
  from assms have ex: "\<exists>c\<in>set k. c \<in> set CARACTERES_INVISIBLES" by blast
  from nsp ex have "validar_datos ucd t k = Inl (TypeError msg_ord8)"
    by (rule validar_datos_invisibles)
  moreover have ne: "detectar_invisibles k \<noteq> []"
    using ex by (simp add: detectar_invisibles_Nil_iff)
  then have "codigos_gen (detectar_invisibles k) = Inl (TypeError msg_ord8)"
    by (rule codigos_gen_length8) (rule hd_detectar_invisibles [OF ne])
  ultimately show ?thesis by simp
qed

theorem clave_invisible_TypeError_witness:
  "0x200B \<in> set CARACTERES_INVISIBLES \<and> 0x200B \<in> set (cps ''CLA'' @ [0x200B] @ cps ''VE'')
   \<and> validar_datos ucd_excerpt (cps ''HOLA'') (cps ''CLA'' @ [0x200B] @ cps ''VE'')
       = Inl (TypeError msg_ord8)
   \<and> detectar_invisibles (cps ''CLA'' @ [0x200B] @ cps ''VE'') = [py_repr_char 0x200B]
   \<and> py_repr_char 0x200B = [39, 92, 117, 50, 48, 48, 98, 39]"
proof -
  have a: "0x200B \<in> set CARACTERES_INVISIBLES" by (simp add: CARACTERES_INVISIBLES_def)
  have b: "0x200B \<in> set (cps ''CLA'' @ [0x200B] @ cps ''VE'')" by simp
  have d: "detectar_invisibles (cps ''CLA'' @ [0x200B] @ cps ''VE'') = [py_repr_char 0x200B]"
    by (simp add: detectar_invisibles_eq cps_def CARACTERES_INVISIBLES_def)
  have e: "py_repr_char 0x200B = [39, 92, 117, 50, 48, 48, 98, 39]"
    by (simp add: py_repr_char_def zero_pad_def hex_digit_def)
  from clave_invisible_TypeError [OF a b, of ucd_excerpt "cps ''HOLA''"] a b d e
  show ?thesis by simp
qed

end
